theory Spec2Isabelle
  imports Complex_Main "HOL-Library.Char_ord" "HOL-Library.List_Lexorder" "HOL-Library.Option_ord"
    "HOL-Library.Product_Lexorder"
begin

section \<open>Errors raised by the pipeline\<close>

text \<open>
  Every exception the modelled code can raise is a constructor. The two \<open>ValueError\<close>s of
  \<open>get_opponent\<close> are kept apart: the one for an unknown entity and the one of the
  "Out Of Bounds" branch, which carries the loop index of its message. \<open>SplitValueError\<close> is
  the \<open>ValueError\<close> of \<open>subset_data\<close>; \<open>IndexError\<close> is what indexing a Python list
  out of range raises; \<open>KeyError\<close> is a missing column (or dictionary key); \<open>AttributeError\<close> a
  missing attribute; \<open>DateParseError\<close> stands for the parser error of \<open>pd.to_datetime\<close>;
  \<open>LengthValueError\<close> is pandas' refusal to assign a column of the wrong length.
\<close>

datatype error =
    EntityValueError
  | OutOfBoundsValueError nat
  | SplitValueError
  | IndexError
  | KeyError
  | AttributeError
  | DateParseError
  | LengthValueError

section \<open>Opponent pairing: \<open>OraclesElixir.get_opponent\<close>\<close>

text \<open>
  Python list indexing \<open>column[j]\<close>: a negative index counts from the end, anything
  outside \<open>[-len, len)\<close> raises \<open>IndexError\<close>. Every caller of \<open>get_opponent\<close> in the
  class passes a list (\<open>.to_list()\<close>).
\<close>

definition py_getitem :: "'a list \<Rightarrow> int \<Rightarrow> error + 'a" where
  "py_getitem xs j =
     (let n = int (length xs); k = (if j < 0 then n + j else j)
      in if 0 \<le> k \<and> k < n then Inr (xs ! nat k) else Inl IndexError)"

text \<open>
  Lines 80 to 85: the gap is 5 for \<open>player\<close>, 1 for \<open>team\<close>, and any other entity raises.
  The argument is \<open>None\<close> when the caller passed Python's \<open>None\<close>.
\<close>

definition entity_gap :: "string option \<Rightarrow> error + nat" where
  "entity_gap entity =
     (if entity = Some ''player'' then Inr 5
      else if entity = Some ''team'' then Inr 1
      else Inl EntityValueError)"

text \<open>
  Lines 99 to 101: after both sides are enumerated the flag is reset.
\<close>

definition reset_flag :: "nat \<Rightarrow> nat \<Rightarrow> nat" where
  "reset_flag gap flag = (if flag \<ge> gap * 2 then 0 else flag)"

text \<open>
  One iteration of the loop of lines 87 to 101 at index \<open>i\<close>, on the state
  \<open>(flag, opponent)\<close>. The index and the flag are never negative (they start at 0 and
  are only incremented), so they are naturals; the looked-up position \<open>i - gap\<close> is computed
  in the integers, as Python does.
\<close>

definition loop_body :: "'a list \<Rightarrow> nat \<Rightarrow> nat \<Rightarrow> nat \<times> 'a list \<Rightarrow> error + (nat \<times> 'a list)" where
  "loop_body column gap i s =
     (case s of (flag, opponent) \<Rightarrow>
        if flag < gap then
          (case py_getitem column (int i + int gap) of
             Inl e \<Rightarrow> Inl e
           | Inr v \<Rightarrow> Inr (reset_flag gap (flag + 1), opponent @ [v]))
        else if gap \<le> flag \<and> flag < gap * 2 then
          (case py_getitem column (int i - int gap) of
             Inl e \<Rightarrow> Inl e
           | Inr v \<Rightarrow> Inr (reset_flag gap (flag + 1), opponent @ [v]))
        else Inl (OutOfBoundsValueError i))"

text \<open>
  \<open>for i, obj in enumerate(column)\<close>: the fourth argument is what the iterator has still
  to yield, the third the index of its next element.
\<close>

fun enumerate_loop :: "'a list \<Rightarrow> nat \<Rightarrow> nat \<Rightarrow> 'a list \<Rightarrow> nat \<times> 'a list \<Rightarrow> error + 'a list" where
  "enumerate_loop column gap i [] s = Inr (snd s)"
| "enumerate_loop column gap i (obj # rest) s =
     (case loop_body column gap i s of
        Inl e \<Rightarrow> Inl e
      | Inr s' \<Rightarrow> enumerate_loop column gap (Suc i) rest s')"

definition get_opponent :: "'a list \<Rightarrow> string option \<Rightarrow> error + 'a list" where
  "get_opponent column entity =
     (case entity_gap entity of
        Inl e \<Rightarrow> Inl e
      | Inr gap \<Rightarrow> enumerate_loop column gap 0 column (0, []))"

text \<open>
  The states the loop is in at the start of its iterations (and after the last one):
  the initial state, and every state one successful iteration later.
\<close>

inductive at_iteration :: "'a list \<Rightarrow> nat \<Rightarrow> nat \<Rightarrow> nat \<times> 'a list \<Rightarrow> bool"
  for column :: "'a list" and gap :: nat where
  at_start: "at_iteration column gap 0 (0, [])"
| at_next: "at_iteration column gap i s \<Longrightarrow> i < length column \<Longrightarrow>
     loop_body column gap i s = Inr s' \<Longrightarrow> at_iteration column gap (Suc i) s'"

text \<open>
  The position the iteration at index \<open>i\<close> with flag \<open>flag\<close> looks up.
\<close>

definition addressed :: "nat \<Rightarrow> nat \<Rightarrow> nat \<Rightarrow> int" where
  "addressed gap i flag = (if flag < gap then int i + int gap else int i - int gap)"

text \<open>
  The pairing the walk computes on a column of whole windows: position \<open>j\<close> is paired
  with the position \<open>gap\<close> ahead in the first half of its window of \<open>2 * gap\<close>, and with
  the position \<open>gap\<close> behind in the second half. It is used to state the loop's invariant.
\<close>

definition opponent_at :: "'a list \<Rightarrow> nat \<Rightarrow> nat \<Rightarrow> 'a" where
  "opponent_at column gap j = (if j mod (2 * gap) < gap then column ! (j + gap) else column ! (j - gap))"

section \<open>The table \<open>oe_data\<close>\<close>

text \<open>
  A match row has a typed field for every column the modelled methods read or write;
  a missing value (pandas' \<open>NaN\<close>) is \<open>None\<close>. The date is a type parameter: the raw
  table holds text, the table after \<open>pd.to_datetime\<close> holds timestamps. The statistics
  columns that no modelled method reads live in the record's extension. The five
  \<open>opponent...\<close> fields are the columns \<open>enrich_opponent_metrics\<close> adds.
\<close>

record 'd row =
  date :: 'd
  gameid :: "string option"
  side :: "string option"
  position :: "string option"
  league :: "string option"
  playername :: "string option"
  playerid :: "string option"
  teamname :: "string option"
  teamid :: "string option"
  earned_gpm :: "real option"
  opponentteam :: "string option"
  opponentteamid :: "string option"
  opponentname :: "string option"
  opponentid :: "string option"
  opponent_egpm :: "real option"

text \<open>
  A DataFrame is its list of column names and its rows. A field of a row whose column is
  not in \<open>columns\<close> cannot be read: every access by name checks the list first and raises
  \<open>KeyError\<close>, as \<open>df["name"]\<close> does.
\<close>

record ('d, 'm) frame =
  columns :: "string list"
  rows :: "('d, 'm) row_scheme list"

text \<open>Sequencing of statements that may raise: the first exception ends the method.\<close>

definition and_then :: "error + 'a \<Rightarrow> ('a \<Rightarrow> error + 'b) \<Rightarrow> error + 'b" where
  "and_then m f = (case m of Inl e \<Rightarrow> Inl e | Inr x \<Rightarrow> f x)"

text \<open>\<open>df[name]\<close> and \<open>df[name].to_list()\<close>.\<close>

definition getitem :: "string \<Rightarrow> (('d, 'm) row_scheme \<Rightarrow> 'v) \<Rightarrow> ('d, 'm) frame \<Rightarrow> error + 'v list" where
  "getitem name field df =
     (if name \<in> set (columns df) then Inr (map field (rows df)) else Inl KeyError)"

text \<open>
  \<open>df[name] = values\<close>: the column is replaced, or appended when it is new; pandas refuses
  values of the wrong length.
\<close>

definition setitem ::
  "string \<Rightarrow> ('v \<Rightarrow> ('d, 'm) row_scheme \<Rightarrow> ('d, 'm) row_scheme) \<Rightarrow> 'v list \<Rightarrow> ('d, 'm) frame \<Rightarrow> error + ('d, 'm) frame" where
  "setitem name put vs df =
     (if length vs \<noteq> length (rows df) then Inl LengthValueError
      else Inr \<lparr>columns = (if name \<in> set (columns df) then columns df else columns df @ [name]),
                rows = map2 put vs (rows df)\<rparr>)"

text \<open>\<open>df[[c1, c2, ...]]\<close>: the projection on the listed columns, all of which must exist.\<close>

definition select_columns :: "string list \<Rightarrow> ('d, 'm) frame \<Rightarrow> error + ('d, 'm) frame" where
  "select_columns names df =
     (if set names \<subseteq> set (columns df) then Inr (df\<lparr>columns := names\<rparr>) else Inl KeyError)"

text \<open>\<open>df[mask]\<close> for a mask computed row by row from columns that must exist.\<close>

definition boolean_mask ::
  "string list \<Rightarrow> (('d, 'm) row_scheme \<Rightarrow> bool) \<Rightarrow> ('d, 'm) frame \<Rightarrow> error + ('d, 'm) frame" where
  "boolean_mask names keep df =
     (if set names \<subseteq> set (columns df) then Inr (df\<lparr>rows := filter keep (rows df)\<rparr>) else Inl KeyError)"

text \<open>pandas' \<open>notna\<close>, \<open>fillna\<close> and the comparison \<open>>= 0\<close> (false on \<open>NaN\<close>).\<close>

definition notna :: "'a option \<Rightarrow> bool" where
  "notna v = (v \<noteq> None)"

definition fillna :: "'a option \<Rightarrow> 'a option \<Rightarrow> 'a option" where
  "fillna v other = (case v of None \<Rightarrow> other | Some x \<Rightarrow> Some x)"

definition ge_zero :: "real option \<Rightarrow> bool" where
  "ge_zero v = (case v of None \<Rightarrow> False | Some x \<Rightarrow> 0 \<le> x)"

subsection \<open>The row filters (lines 120 to 136)\<close>

definition format_ids :: "('d, 'm) frame \<Rightarrow> error + ('d, 'm) frame" where
  "format_ids df =
     boolean_mask [''gameid'', ''position''] (\<lambda>r. notna (gameid r) \<and> notna (position r)) df"

definition remove_null_games :: "('d, 'm) frame \<Rightarrow> error + ('d, 'm) frame" where
  "remove_null_games df = boolean_mask [''gameid''] (\<lambda>r. notna (gameid r)) df"

definition drop_unknown_entities :: "('d, 'm) frame \<Rightarrow> error + ('d, 'm) frame" where
  "drop_unknown_entities df =
     boolean_mask [''playername'', ''teamname'']
       (\<lambda>r. playername r \<noteq> Some ''unknown player'' \<and> teamname r \<noteq> Some ''unknown team'') df"

definition drop_negative_earned_gpm :: "('d, 'm) frame \<Rightarrow> error + ('d, 'm) frame" where
  "drop_negative_earned_gpm df = boolean_mask [''earned gpm''] (\<lambda>r. ge_zero (earned_gpm r)) df"

text \<open>The four filters in the order \<open>clean_data\<close> applies them (lines 278 to 281).\<close>

definition row_filters :: "('d, 'm) frame \<Rightarrow> error + ('d, 'm) frame" where
  "row_filters df =
     and_then (format_ids df) (\<lambda>df.
     and_then (remove_null_games df) (\<lambda>df.
     and_then (drop_unknown_entities df) drop_negative_earned_gpm))"

subsection \<open>\<open>subset_data\<close> (lines 149 to 216)\<close>

definition team_columns :: "string list" where
  "team_columns =
     [''date'', ''gameid'', ''side'', ''league'', ''teamname'', ''teamid'', ''result'',
      ''kills'', ''deaths'', ''assists'', ''earned gpm'', ''gamelength'', ''ckpm'',
      ''team kpm'', ''firstblood'', ''dragons'', ''barons'', ''towers'', ''goldat15'',
      ''xpat15'', ''csat15'', ''golddiffat15'', ''xpdiffat15'', ''csdiffat15'']"

definition player_columns :: "string list" where
  "player_columns =
     [''date'', ''gameid'', ''side'', ''position'', ''league'', ''playername'', ''playerid'',
      ''teamname'', ''teamid'', ''result'', ''kills'', ''deaths'', ''assists'', ''total cs'',
      ''earned gpm'', ''earnedgoldshare'', ''gamelength'', ''ckpm'', ''team kpm'',
      ''goldat15'', ''xpat15'', ''csat15'', ''killsat15'', ''assistsat15'', ''deathsat15'',
      ''opp_killsat15'', ''opp_assistsat15'', ''opp_deathsat15'', ''golddiffat15'',
      ''xpdiffat15'', ''csdiffat15'']"

definition subset_data :: "string option \<Rightarrow> ('d, 'm) frame \<Rightarrow> error + ('d, 'm) frame" where
  "subset_data split_on df =
     (if split_on = Some ''team'' then select_columns team_columns df
      else if split_on = Some ''player'' then select_columns player_columns df
      else Inl SplitValueError)"

subsection \<open>\<open>remove_inconsistent_games\<close> (lines 218 to 223)\<close>

text \<open>
  \<open>Series.value_counts()\<close>: the number of occurrences of every value that occurs, missing
  values left out. Only the counts and the index of the result are used, so it is a map.
\<close>

definition value_counts :: "'a option list \<Rightarrow> ('a \<rightharpoonup> nat)" where
  "value_counts xs = (\<lambda>v. if Some v \<in> set xs then Some (count_list xs (Some v)) else None)"

text \<open>
  The mask of line 221 on one count, and membership of a cell in the index of the
  selected counts (\<open>isin\<close>; a missing value is in no index).
\<close>

definition inconsistent_count :: "string option \<Rightarrow> nat \<Rightarrow> bool" where
  "inconsistent_count split_on c = (if split_on = Some ''team'' then c \<noteq> 2 else c < 1 \<or> c > 10)"

definition isin_inconsistent :: "string option \<Rightarrow> (string \<rightharpoonup> nat) \<Rightarrow> string option \<Rightarrow> bool" where
  "isin_inconsistent split_on counts v =
     (case v of
        None \<Rightarrow> False
      | Some g \<Rightarrow> (case counts g of None \<Rightarrow> False | Some c \<Rightarrow> inconsistent_count split_on c))"

definition remove_inconsistent_games :: "string option \<Rightarrow> ('d, 'm) frame \<Rightarrow> error + ('d, 'm) frame" where
  "remove_inconsistent_games split_on df =
     and_then (getitem ''gameid'' gameid df) (\<lambda>ids.
       let counts = value_counts ids
       in boolean_mask [''gameid''] (\<lambda>r. \<not> isin_inconsistent split_on counts (gameid r)) df)"

subsection \<open>Identity backfill and opponent columns (lines 231 to 246)\<close>

definition fill_null_team_ids :: "string option \<Rightarrow> ('d, 'm) frame \<Rightarrow> error + ('d, 'm) frame" where
  "fill_null_team_ids split_on df =
     (if split_on = Some ''player'' then
        and_then (getitem ''teamid'' teamid df) (\<lambda>ids.
        and_then (getitem ''teamname'' teamname df) (\<lambda>names.
          setitem ''teamid'' (\<lambda>v r. r\<lparr>teamid := v\<rparr>) (map2 fillna ids names) df))
      else Inr df)"

text \<open>Line 238, the first statement of the \<open>player\<close> branch of \<open>enrich_opponent_metrics\<close>.\<close>

definition fill_null_player_ids :: "('d, 'm) frame \<Rightarrow> error + ('d, 'm) frame" where
  "fill_null_player_ids df =
     and_then (getitem ''playerid'' playerid df) (\<lambda>ids.
     and_then (getitem ''playername'' playername df) (\<lambda>names.
       setitem ''playerid'' (\<lambda>v r. r\<lparr>playerid := v\<rparr>) (map2 fillna ids names) df))"

text \<open>
  One statement \<open>df[dst] = get_opponent(df[src].to_list(), split_on)\<close>: the source column
  is read, paired, and the result stored as the destination column.
\<close>

definition pair_column ::
  "string \<Rightarrow> (('d, 'm) row_scheme \<Rightarrow> 'v) \<Rightarrow> string \<Rightarrow> ('v \<Rightarrow> ('d, 'm) row_scheme \<Rightarrow> ('d, 'm) row_scheme) \<Rightarrow>
   string option \<Rightarrow> ('d, 'm) frame \<Rightarrow> error + ('d, 'm) frame" where
  "pair_column src field dst put split_on df =
     and_then (getitem src field df) (\<lambda>column.
     and_then (get_opponent column split_on) (\<lambda>opponent.
       setitem dst put opponent df))"

text \<open>Lines 239 to 244: the opponent columns, the first two in the \<open>player\<close> branch only.\<close>

definition pair_opponents :: "string option \<Rightarrow> ('d, 'm) frame \<Rightarrow> error + ('d, 'm) frame" where
  "pair_opponents split_on df =
     and_then
       (if split_on = Some ''player'' then
          and_then (pair_column ''teamname'' teamname ''opponentteam'' (\<lambda>v r. r\<lparr>opponentteam := v\<rparr>) split_on df)
            (pair_column ''teamid'' teamid ''opponentteamid'' (\<lambda>v r. r\<lparr>opponentteamid := v\<rparr>) split_on)
        else Inr df) (\<lambda>df.
     and_then (pair_column ''playername'' playername ''opponentname'' (\<lambda>v r. r\<lparr>opponentname := v\<rparr>) split_on df) (\<lambda>df.
     and_then (pair_column ''playerid'' playerid ''opponentid'' (\<lambda>v r. r\<lparr>opponentid := v\<rparr>) split_on df)
       (pair_column ''earned gpm'' earned_gpm ''opponent_egpm'' (\<lambda>v r. r\<lparr>opponent_egpm := v\<rparr>) split_on)))"

definition enrich_opponent_metrics :: "string option \<Rightarrow> ('d, 'm) frame \<Rightarrow> error + ('d, 'm) frame" where
  "enrich_opponent_metrics split_on df =
     and_then (if split_on = Some ''player'' then fill_null_player_ids df else Inr df)
       (pair_opponents split_on)"

subsection \<open>\<open>format_data_types\<close> (lines 104 to 118)\<close>

text \<open>
  \<open>pd.to_datetime\<close> on the raw date column. The parser is a parameter: it returns \<open>None\<close>
  on text that is no date, on which \<open>to_datetime\<close> raises. A missing date becomes a missing
  timestamp.
\<close>

definition to_datetime :: "(string \<Rightarrow> int option) \<Rightarrow> string option list \<Rightarrow> error + int option list" where
  "to_datetime parse raw =
     (if list_ex (\<lambda>c. case c of None \<Rightarrow> False | Some s \<Rightarrow> parse s = None) raw then Inl DateParseError
      else Inr (map (\<lambda>c. case c of None \<Rightarrow> None | Some s \<Rightarrow> parse s) raw))"

text \<open>Storing the parsed dates changes the type of the date column.\<close>

definition set_date :: "'e \<Rightarrow> ('d, 'm) row_scheme \<Rightarrow> ('e, 'm) row_scheme" where
  "set_date v r =
     \<lparr>date = v, gameid = gameid r, side = side r, position = position r, league = league r,
      playername = playername r, playerid = playerid r, teamname = teamname r, teamid = teamid r,
      earned_gpm = earned_gpm r, opponentteam = opponentteam r, opponentteamid = opponentteamid r,
      opponentname = opponentname r, opponentid = opponentid r, opponent_egpm = opponent_egpm r,
      \<dots> = row.more r\<rparr>"

definition setitem_date :: "'e list \<Rightarrow> ('d, 'm) frame \<Rightarrow> error + ('e, 'm) frame" where
  "setitem_date vs df =
     (if length vs \<noteq> length (rows df) then Inl LengthValueError
      else Inr \<lparr>columns = (if ''date'' \<in> set (columns df) then columns df else columns df @ [''date'']),
                rows = map2 set_date vs (rows df)\<rparr>)"

text \<open>
  Lines 106 to 108 take the attribute \<open>str\<close> of a DataFrame (the projection on three
  columns is a DataFrame, not a Series). A DataFrame has no string accessor: the attribute
  look-up falls back to a column of that name, the projection has the three columns
  \<open>gameid\<close>, \<open>playerid\<close>, \<open>teamid\<close> only, and Python raises \<open>AttributeError\<close>. There is no
  input on which the expression has a value.
\<close>

definition dataframe_str_strip :: "('d, 'm) frame \<Rightarrow> error + ('d, 'm) frame" where
  "dataframe_str_strip df = Inl AttributeError"

text \<open>
  The statements after it: the three columns are stored back, and the literals of
  \<open>replace_values\<close> in the four listed columns become missing values.
\<close>

definition store_ids :: "('d, 'm) frame \<Rightarrow> ('d, 'm) frame \<Rightarrow> error + ('d, 'm) frame" where
  "store_ids stripped df =
     (if length (rows stripped) \<noteq> length (rows df) then Inl LengthValueError
      else Inr (df\<lparr>rows := map2 (\<lambda>s r. r\<lparr>gameid := gameid s, playerid := playerid s, teamid := teamid s\<rparr>)
                             (rows stripped) (rows df)\<rparr>))"

definition replace_values :: "string option \<Rightarrow> string option" where
  "replace_values v = (if v = Some [] \<or> v = Some ''nan'' \<or> v = Some ''null'' then None else v)"

definition replace_ids :: "('d, 'm) frame \<Rightarrow> ('d, 'm) frame" where
  "replace_ids df =
     df\<lparr>rows := map (\<lambda>r. r\<lparr>gameid := replace_values (gameid r), playerid := replace_values (playerid r),
                               teamid := replace_values (teamid r), position := replace_values (position r)\<rparr>)
                     (rows df)\<rparr>"

definition format_data_types ::
  "(string \<Rightarrow> int option) \<Rightarrow> (string option, 'm) frame \<Rightarrow> error + (int option, 'm) frame" where
  "format_data_types parse df =
     and_then (getitem ''date'' date df) (\<lambda>raw.
     and_then (to_datetime parse raw) (\<lambda>parsed.
     and_then (setitem_date parsed df) (\<lambda>df.
     and_then (select_columns [''gameid'', ''playerid'', ''teamid''] df) (\<lambda>ids.
     and_then (dataframe_str_strip ids) (\<lambda>stripped.
     and_then (store_ids stripped df) (\<lambda>df. Inr (replace_ids df)))))))"

section \<open>Flattening in \<open>enrich_dataset\<close> (data_generator.py, lines 90 to 118)\<close>
















section \<open>Auxiliary definitions for statements and examples\<close>

text \<open>The conjunction of the masks of the four row filters.\<close>

definition keeps_row :: "('d, 'm) row_scheme \<Rightarrow> bool" where
  "keeps_row r \<longleftrightarrow> notna (gameid r) \<and> notna (position r)
      \<and> playername r \<noteq> Some ''unknown player'' \<and> teamname r \<noteq> Some ''unknown team''
      \<and> ge_zero (earned_gpm r)"

text \<open>A row with the given date and every other cell missing, from which examples are built.\<close>

definition blank_row :: "'d \<Rightarrow> 'd row" where
  "blank_row d =
     \<lparr>date = d, gameid = None, side = None, position = None, league = None, playername = None,
      playerid = None, teamname = None, teamid = None, earned_gpm = None, opponentteam = None,
      opponentteamid = None, opponentname = None, opponentid = None, opponent_egpm = None\<rparr>"

text \<open>Example tables.\<close>

definition ex_raw :: "int row list" where
  "ex_raw =
     [(blank_row 1)\<lparr>gameid := Some ''g1'', position := Some ''top'', playername := Some ''Ann'',
         teamname := Some ''A'', earned_gpm := Some 250\<rparr>,
      (blank_row 1)\<lparr>gameid := None, position := Some ''top'', playername := Some ''Bob'',
         teamname := Some ''B'', earned_gpm := Some 300\<rparr>,
      (blank_row 1)\<lparr>gameid := Some ''g1'', position := Some ''mid'', playername := Some ''unknown player'',
         teamname := Some ''B'', earned_gpm := Some 100\<rparr>,
      (blank_row 1)\<lparr>gameid := Some ''g1'', position := Some ''jng'', playername := Some ''Cid'',
         teamname := Some ''B'', earned_gpm := Some (- 5)\<rparr>]"

definition ex_cols :: "string list" where
  "ex_cols = [''gameid'', ''position'', ''playername'', ''teamname'', ''earned gpm'']"

definition ex_games :: "int row list" where
  "ex_games =
     [(blank_row 1)\<lparr>gameid := Some ''g1'', side := Some ''Blue''\<rparr>,
      (blank_row 1)\<lparr>gameid := Some ''g1'', side := Some ''Red''\<rparr>,
      (blank_row 2)\<lparr>gameid := Some ''g2'', side := Some ''Blue''\<rparr>,
      (blank_row 2)\<lparr>gameid := Some ''g2'', side := Some ''Red''\<rparr>,
      (blank_row 2)\<lparr>gameid := Some ''g2'', side := Some ''Red''\<rparr>]"




definition player_row :: "string \<Rightarrow> string option \<Rightarrow> string \<Rightarrow> string option \<Rightarrow> int row" where
  "player_row team tid name pid =
     (blank_row 0)\<lparr>playername := Some name, playerid := pid, teamname := Some team, teamid := tid,
                   earned_gpm := Some 1\<rparr>"

definition ex_players :: "(int, unit) frame" where
  "ex_players =
     \<lparr>columns = [''teamid'', ''teamname'', ''playerid'', ''playername'', ''earned gpm''],
      rows = [player_row ''A'' (Some ''ta'') ''a1'' (Some ''p1''),
              player_row ''A'' None ''a2'' None,
              player_row ''A'' (Some ''ta'') ''a3'' (Some ''p3''),
              player_row ''A'' (Some ''ta'') ''a4'' (Some ''p4''),
              player_row ''A'' (Some ''ta'') ''a5'' (Some ''p5''),
              player_row ''B'' None ''b1'' (Some ''q1''),
              player_row ''B'' (Some ''tb'') ''b2'' (Some ''q2''),
              player_row ''B'' (Some ''tb'') ''b3'' None,
              player_row ''B'' (Some ''tb'') ''b4'' (Some ''q4''),
              player_row ''B'' (Some ''tb'') ''b5'' (Some ''q5'')]\<rparr>"

section \<open>The walk of \<open>get_opponent\<close>\<close>

lemma py_getitem_nat:
  "py_getitem xs (int k) = (if k < length xs then Inr (xs ! k) else Inl IndexError)"
  by (simp add: py_getitem_def)

lemma py_getitem_ahead:
  "py_getitem xs (int i + int gap) = (if i + gap < length xs then Inr (xs ! (i + gap)) else Inl IndexError)"
  using py_getitem_nat[of xs "i + gap"] by simp

lemma py_getitem_behind:
  assumes "gap \<le> i" and "i < length xs"
  shows "py_getitem xs (int i - int gap) = Inr (xs ! (i - gap))"
  using py_getitem_nat[of xs "i - gap"] assms by simp

lemma mod_ge_imp_ge: "gap \<le> i mod m \<Longrightarrow> gap \<le> (i::nat)"
  by (meson le_trans mod_less_eq_dividend)

lemma reset_flag_mod:
  assumes "0 < gap"
  shows "reset_flag gap (Suc (i mod (2 * gap))) = Suc i mod (2 * gap)"
proof -
  have "i mod (2 * gap) < 2 * gap" using assms by simp
  then show ?thesis
    by (auto simp: reset_flag_def mod_Suc mult.commute)
qed

lemma loop_body_at:
  assumes "0 < gap" and "i < length column"
  shows "loop_body column gap i (i mod (2 * gap), acc) =
     (if i mod (2 * gap) < gap
      then (if i + gap < length column
            then Inr (Suc i mod (2 * gap), acc @ [column ! (i + gap)])
            else Inl IndexError)
      else Inr (Suc i mod (2 * gap), acc @ [column ! (i - gap)]))"
proof (cases "i mod (2 * gap) < gap")
  case True
  then show ?thesis
    unfolding loop_body_def py_getitem_ahead by (simp add: reset_flag_mod[OF assms(1)])
next
  case False
  then have ge: "gap \<le> i" using mod_ge_imp_ge[of gap i "2 * gap"] by simp
  have lt: "i mod (2 * gap) < gap * 2" using assms(1) by (simp add: mult.commute)
  from False lt show ?thesis
    unfolding loop_body_def py_getitem_behind[OF ge assms(2)]
    by (simp add: reset_flag_mod[OF assms(1)])
qed

lemma at_iteration_flag:
  assumes "at_iteration column gap i s" and "0 < gap"
  shows "fst s = i mod (2 * gap)"
  using assms
proof (induction rule: at_iteration.induct)
  case at_start
  then show ?case by simp
next
  case (at_next i s s')
  obtain acc where s: "s = (i mod (2 * gap), acc)"
    using at_next.IH at_next.prems by (cases s) simp
  from at_next.hyps(3) show ?case
    unfolding s loop_body_at[OF at_next.prems at_next.hyps(2)]
    by (auto split: if_splits)
qed

lemma at_iteration_opponent:
  assumes "at_iteration column gap i s" and "0 < gap"
  shows "snd s = map (opponent_at column gap) [0..<i]"
  using assms
proof (induction rule: at_iteration.induct)
  case at_start
  then show ?case by simp
next
  case (at_next i s s')
  have "fst s = i mod (2 * gap)"
    using at_iteration_flag[OF at_next.hyps(1) at_next.prems] .
  then have s: "s = (i mod (2 * gap), map (opponent_at column gap) [0..<i])"
    using at_next.IH at_next.prems by (cases s) simp
  from at_next.hyps(3) show ?case
    unfolding s loop_body_at[OF at_next.prems at_next.hyps(2)]
    by (auto simp: opponent_at_def split: if_splits)
qed

lemma at_iteration_continue:
  assumes "at_iteration column gap i s"
  shows "enumerate_loop column gap i (drop i column) s = enumerate_loop column gap 0 column (0, [])"
  using assms
proof (induction rule: at_iteration.induct)
  case at_start
  then show ?case by simp
next
  case (at_next i s s')
  have "drop i column = column ! i # drop (Suc i) column"
    using at_next.hyps(2) by (simp add: Cons_nth_drop_Suc)
  then have "enumerate_loop column gap i (drop i column) s =
      enumerate_loop column gap (Suc i) (drop (Suc i) column) s'"
    using at_next.hyps(3) by simp
  with at_next.IH show ?case by simp
qed

lemma window_ahead:
  assumes "n mod (2 * gap) = 0" and "i < n" and "i mod (2 * gap) < gap"
  shows "i + gap < (n::nat)"
proof -
  define m where "m = 2 * gap"
  obtain k where n: "n = m * k" using assms(1) unfolding m_def by auto
  have "i div m < k"
    using assms(2) unfolding n
    by (metis less_mult_imp_div_less mult.commute)
  then have "m * Suc (i div m) \<le> m * k"
    by (intro mult_le_mono2) simp
  then have "m * (i div m) + m \<le> n" unfolding n by simp
  moreover have "i = m * (i div m) + i mod m" by simp
  moreover have "i mod m + gap < m" using assms(3) unfolding m_def by simp
  ultimately show ?thesis by linarith
qed

lemma walk_reaches_or_fails:
  assumes "0 < gap" and "i \<le> length column"
  shows "at_iteration column gap i (i mod (2 * gap), map (opponent_at column gap) [0..<i])
     \<or> enumerate_loop column gap 0 column (0, []) = Inl IndexError"
  using assms(2)
proof (induction i)
  case 0
  show ?case using at_start[of column gap] by simp
next
  case (Suc i)
  let ?s = "(i mod (2 * gap), map (opponent_at column gap) [0..<i])"
  have lt: "i < length column" using Suc.prems by simp
  from Suc.IH lt consider (reached) "at_iteration column gap i ?s"
    | (failed) "enumerate_loop column gap 0 column (0, []) = Inl IndexError"
    by auto
  then show ?case
  proof cases
    case reached
    have drop: "drop i column = column ! i # drop (Suc i) column"
      using lt by (simp add: Cons_nth_drop_Suc)
    show ?thesis
    proof (cases "i mod (2 * gap) < gap \<and> \<not> i + gap < length column")
      case True
      then have "loop_body column gap i ?s = Inl IndexError"
        by (simp add: loop_body_at[OF assms(1) lt])
      then have "enumerate_loop column gap i (drop i column) ?s = Inl IndexError"
        unfolding drop by simp
      then show ?thesis using at_iteration_continue[OF reached] by simp
    next
      case False
      then have "loop_body column gap i ?s =
          Inr (Suc i mod (2 * gap), map (opponent_at column gap) [0..<Suc i])"
        by (auto simp: loop_body_at[OF assms(1) lt] opponent_at_def)
      then show ?thesis using at_next[OF reached lt] by blast
    qed
  next
    case failed
    then show ?thesis by simp
  qed
qed

lemma walk_result_cases:
  assumes "0 < gap"
  shows "enumerate_loop column gap 0 column (0, []) = Inr (map (opponent_at column gap) [0..<length column])
     \<or> enumerate_loop column gap 0 column (0, []) = Inl IndexError"
proof -
  let ?n = "length column"
  have "at_iteration column gap ?n (?n mod (2 * gap), map (opponent_at column gap) [0..<?n])
     \<or> enumerate_loop column gap 0 column (0, []) = Inl IndexError"
    by (rule walk_reaches_or_fails[OF assms order_refl])
  then show ?thesis
  proof
    assume r: "at_iteration column gap ?n (?n mod (2 * gap), map (opponent_at column gap) [0..<?n])"
    show ?thesis using at_iteration_continue[OF r] by simp
  next
    assume "enumerate_loop column gap 0 column (0, []) = Inl IndexError"
    then show ?thesis by simp
  qed
qed

lemma walk_fails_past_end:
  assumes "0 < gap" and "i < length column" and "i mod (2 * gap) < gap"
    and "length column \<le> i + gap"
  shows "enumerate_loop column gap 0 column (0, []) = Inl IndexError"
proof -
  let ?s = "(i mod (2 * gap), map (opponent_at column gap) [0..<i])"
  from walk_reaches_or_fails[OF assms(1), of i column] assms(2)
  consider (reached) "at_iteration column gap i ?s"
    | (failed) "enumerate_loop column gap 0 column (0, []) = Inl IndexError"
    by auto
  then show ?thesis
  proof cases
    case reached
    have drop: "drop i column = column ! i # drop (Suc i) column"
      using assms(2) by (simp add: Cons_nth_drop_Suc)
    have "loop_body column gap i ?s = Inl IndexError"
      using assms(3,4) by (simp add: loop_body_at[OF assms(1,2)])
    then have "enumerate_loop column gap i (drop i column) ?s = Inl IndexError"
      unfolding drop by simp
    then show ?thesis using at_iteration_continue[OF reached] by simp
  next
    case failed
    then show ?thesis .
  qed
qed

lemma walk_succeeds_on_windows:
  assumes "0 < gap" and "length column mod (2 * gap) = 0"
  shows "enumerate_loop column gap 0 column (0, []) = Inr (map (opponent_at column gap) [0..<length column])"
proof -
  have reach: "i \<le> length column \<Longrightarrow>
      at_iteration column gap i (i mod (2 * gap), map (opponent_at column gap) [0..<i])" for i
  proof (induction i)
    case 0
    show ?case using at_start[of column gap] by simp
  next
    case (Suc i)
    have lt: "i < length column" using Suc.prems by simp
    have "i mod (2 * gap) < gap \<Longrightarrow> i + gap < length column"
      using window_ahead[OF assms(2) lt] .
    then have "loop_body column gap i (i mod (2 * gap), map (opponent_at column gap) [0..<i]) =
        Inr (Suc i mod (2 * gap), map (opponent_at column gap) [0..<Suc i])"
      by (auto simp: loop_body_at[OF assms(1) lt] opponent_at_def)
    then show ?case using at_next[OF Suc.IH lt] lt by simp
  qed
  show ?thesis using at_iteration_continue[OF reach[of "length column"]] by simp
qed

lemma first_bad_index:
  assumes "0 < gap" and "(n::nat) mod (2 * gap) \<noteq> 0"
  shows "\<exists>i < n. i mod (2 * gap) < gap \<and> n \<le> i + gap"
proof -
  define m where "m = 2 * gap"
  define r where "r = n mod m"
  have r: "0 < r" "r < m" using assms unfolding r_def m_def by simp_all
  have n: "n = m * (n div m) + r" unfolding r_def by simp
  show ?thesis
  proof (cases "r \<le> gap")
    case True
    have "(m * (n div m)) mod m = 0" by simp
    moreover have "m * (n div m) < n" using n r by linarith
    moreover have "n \<le> m * (n div m) + gap" using n True by linarith
    ultimately show ?thesis using assms(1) unfolding m_def[symmetric] by auto
  next
    case False
    have "(m * (n div m) + (r - gap)) mod m = r - gap"
      using r by simp
    moreover have "r - gap < gap" using r False unfolding m_def by simp
    moreover have "m * (n div m) + (r - gap) < n" using n r False assms(1) by linarith
    moreover have "n \<le> m * (n div m) + (r - gap) + gap" using n False by linarith
    ultimately show ?thesis unfolding m_def[symmetric] by metis
  qed
qed

lemma walk_fails_off_windows:
  assumes "0 < gap" and "length column mod (2 * gap) \<noteq> 0"
  shows "enumerate_loop column gap 0 column (0, []) = Inl IndexError"
proof -
  from first_bad_index[OF assms] obtain i where
    "i < length column" "i mod (2 * gap) < gap" "length column \<le> i + gap" by blast
  then show ?thesis using walk_fails_past_end[OF assms(1)] by blast
qed

lemma entity_gap_pos: "entity_gap entity = Inr gap \<Longrightarrow> 0 < gap"
  by (auto simp: entity_gap_def split: if_splits)

lemma mod_ahead:
  assumes "i mod (2 * gap) < gap"
  shows "(i + gap) mod (2 * gap) = i mod (2 * gap) + (gap::nat)"
proof -
  have "(i + gap) mod (2 * gap) = (i mod (2 * gap) + gap) mod (2 * gap)"
    by (simp add: mod_add_left_eq)
  also have "\<dots> = i mod (2 * gap) + gap"
    using assms by (intro mod_less) simp
  finally show ?thesis .
qed

lemma mod_behind:
  assumes "gap \<le> i mod (2 * gap)" and "0 < gap"
  shows "(i - gap) mod (2 * gap) = i mod (2 * gap) - (gap::nat)"
proof -
  define m where "m = 2 * gap"
  have i: "i = m * (i div m) + i mod m" by simp
  have "i - gap = m * (i div m) + (i mod m - gap)"
    using assms(1) i unfolding m_def[symmetric] by linarith
  then have "(i - gap) mod m = (i mod m - gap) mod m"
    by (metis mod_mult_self4)
  also have "\<dots> = i mod m - gap"
    using assms(2) unfolding m_def by (intro mod_less) (simp add: less_imp_diff_less)
  finally show ?thesis unfolding m_def .
qed

lemma opponent_at_involutive:
  assumes "0 < gap" and "length column mod (2 * gap) = 0"
  shows "map (opponent_at (map (opponent_at column gap) [0..<length column]) gap) [0..<length column] = column"
proof (rule nth_equalityI)
  show "length (map (opponent_at (map (opponent_at column gap) [0..<length column]) gap) [0..<length column]) = length column"
    by simp
next
  fix i
  assume "i < length (map (opponent_at (map (opponent_at column gap) [0..<length column]) gap) [0..<length column])"
  then have lt: "i < length column" by simp
  let ?ys = "map (opponent_at column gap) [0..<length column]"
  show "map (opponent_at ?ys gap) [0..<length column] ! i = column ! i"
  proof (cases "i mod (2 * gap) < gap")
    case True
    have ahead: "i + gap < length column" using window_ahead[OF assms(2) lt True] .
    have "opponent_at ?ys gap i = ?ys ! (i + gap)" using True by (simp add: opponent_at_def)
    also have "\<dots> = opponent_at column gap (i + gap)" using ahead by simp
    also have "\<dots> = column ! i" using mod_ahead[OF True] by (simp add: opponent_at_def)
    finally show ?thesis using lt by simp
  next
    case False
    then have ge: "gap \<le> i mod (2 * gap)" by simp
    then have gi: "gap \<le> i" by (rule mod_ge_imp_ge)
    have lt2: "i mod (2 * gap) < 2 * gap" using assms(1) by simp
    have "opponent_at ?ys gap i = ?ys ! (i - gap)" using False by (simp add: opponent_at_def)
    also have "\<dots> = opponent_at column gap (i - gap)" using lt by simp
    also have "\<dots> = column ! i"
    proof -
      have "(i - gap) mod (2 * gap) < gap"
        using mod_behind[OF ge assms(1)] lt2 ge by linarith
      moreover have "i - gap + gap = i" using gi by simp
      ultimately show ?thesis by (simp add: opponent_at_def)
    qed
    finally show ?thesis using lt by simp
  qed
qed

lemma get_opponent_run:
  "entity_gap entity = Inr gap \<Longrightarrow> get_opponent column entity = enumerate_loop column gap 0 column (0, [])"
  by (simp add: get_opponent_def)

section \<open>Facts about the table operations\<close>

lemma and_then_simps:
  "and_then (Inl e) f = Inl e"
  "and_then (Inr x) f = f x"
  by (simp_all add: and_then_def)

lemma row_filters_eq:
  "row_filters df =
     (if {''gameid'', ''position'', ''playername'', ''teamname'', ''earned gpm''} \<subseteq> set (columns df)
      then Inr (df\<lparr>rows := filter keeps_row (rows df)\<rparr>) else Inl KeyError)"
  unfolding row_filters_def format_ids_def remove_null_games_def drop_unknown_entities_def
    drop_negative_earned_gpm_def boolean_mask_def keeps_row_def
  by (auto simp: and_then_simps intro!: arg_cong[where f = "\<lambda>rs. df\<lparr>rows := rs\<rparr>"] filter_cong)

lemma count_list_filter_ids:
  "count_list (map f (filter (\<lambda>r. P (f r)) rs)) v = (if P v then count_list (map f rs) v else 0)"
  by (induction rs) auto

lemma remove_inconsistent_games_eq:
  "remove_inconsistent_games split_on df =
     (if ''gameid'' \<in> set (columns df)
      then Inr (df\<lparr>rows := filter (\<lambda>r. \<not> isin_inconsistent split_on (value_counts (map gameid (rows df))) (gameid r)) (rows df)\<rparr>)
      else Inl KeyError)"
  by (simp add: remove_inconsistent_games_def getitem_def boolean_mask_def and_then_simps)

lemma isin_inconsistent_Some:
  "isin_inconsistent split_on (value_counts ids) (Some g) \<longleftrightarrow>
     Some g \<in> set ids \<and> inconsistent_count split_on (count_list ids (Some g))"
  by (simp add: isin_inconsistent_def value_counts_def)

lemma set_map_filter_ids:
  "v \<in> set (map f (filter (\<lambda>r. P (f r)) rs)) \<longleftrightarrow> v \<in> set (map f rs) \<and> P v"
  by auto

lemma filter_filter_ids:
  "P v \<Longrightarrow> filter (\<lambda>r. f r = v) (filter (\<lambda>r. P (f r)) rs) = filter (\<lambda>r. f r = v) rs"
  by (induction rs) auto

lemma remaining_game:
  fixes rs :: "('d, 'm) row_scheme list"
  assumes "kept = filter (\<lambda>r. \<not> isin_inconsistent split_on (value_counts (map gameid rs)) (gameid r)) rs"
  shows "Some g \<in> set (map gameid kept) \<longleftrightarrow>
           Some g \<in> set (map gameid rs) \<and> \<not> inconsistent_count split_on (count_list (map gameid rs) (Some g))"
    and "Some g \<in> set (map gameid kept) \<Longrightarrow>
           count_list (map gameid kept) (Some g) = count_list (map gameid rs) (Some g)"
    and "Some g \<in> set (map gameid kept) \<Longrightarrow>
           filter (\<lambda>r. gameid r = Some g) kept = filter (\<lambda>r. gameid r = Some g) rs"
proof -
  let ?P = "\<lambda>v. \<not> isin_inconsistent split_on (value_counts (map gameid rs)) v"
  have mem: "Some g \<in> set (map gameid kept) \<longleftrightarrow> Some g \<in> set (map gameid rs) \<and> ?P (Some g)"
    unfolding assms by (rule set_map_filter_ids[of "Some g" gameid ?P rs])
  then show "Some g \<in> set (map gameid kept) \<longleftrightarrow>
           Some g \<in> set (map gameid rs) \<and> \<not> inconsistent_count split_on (count_list (map gameid rs) (Some g))"
    unfolding isin_inconsistent_Some by blast
  assume "Some g \<in> set (map gameid kept)"
  then have keep: "?P (Some g)" using mem by blast
  show "count_list (map gameid kept) (Some g) = count_list (map gameid rs) (Some g)"
    unfolding assms using count_list_filter_ids[of gameid ?P rs "Some g"] keep by simp
  show "filter (\<lambda>r. gameid r = Some g) kept = filter (\<lambda>r. gameid r = Some g) rs"
    unfolding assms using filter_filter_ids[of ?P "Some g" gameid rs] keep by simp
qed

lemma format_data_types_cases:
  "format_data_types parse df = Inl KeyError \<or> format_data_types parse df = Inl DateParseError
     \<or> format_data_types parse df = Inl LengthValueError \<or> format_data_types parse df = Inl AttributeError"
  unfolding format_data_types_def getitem_def to_datetime_def setitem_date_def select_columns_def
    dataframe_str_strip_def and_then_def
  by (simp split: sum.splits)

section \<open>Facts about sorting and grouping\<close>














section \<open>Facts about the backfill and the opponent columns\<close>

lemma map2_fill:
  "map2 put (map2 f (map a rs) (map b rs)) rs = map (\<lambda>r. put (f (a r) (b r)) r) rs"
  by (induction rs) simp_all

lemma map2_keeps:
  assumes "length vs = length rs" and "\<And>v r. f (put v r) = f r"
  shows "map f (map2 put vs rs) = map f rs"
  using assms(1) by (induction vs rs rule: list_induct2) (simp_all add: assms(2))

lemma map2_stores:
  assumes "length vs = length rs" and "\<And>v r. f (put v r) = v"
  shows "map f (map2 put vs rs) = vs"
  using assms(1) by (induction vs rs rule: list_induct2) (simp_all add: assms(2))

lemma fill_null_team_ids_player:
  assumes "''teamid'' \<in> set (columns df)" and "''teamname'' \<in> set (columns df)"
  shows "fill_null_team_ids (Some ''player'') df =
     Inr \<lparr>columns = columns df, rows = map (\<lambda>r. r\<lparr>teamid := fillna (teamid r) (teamname r)\<rparr>) (rows df)\<rparr>"
  using assms by (simp add: fill_null_team_ids_def getitem_def setitem_def and_then_def map2_fill)

lemma fill_null_player_ids_eq:
  assumes "''playerid'' \<in> set (columns df)" and "''playername'' \<in> set (columns df)"
  shows "fill_null_player_ids df =
     Inr \<lparr>columns = columns df, rows = map (\<lambda>r. r\<lparr>playerid := fillna (playerid r) (playername r)\<rparr>) (rows df)\<rparr>"
  using assms by (simp add: fill_null_player_ids_def getitem_def setitem_def and_then_def map2_fill)

lemma get_opponent_elements:
  assumes "get_opponent column entity = Inr out"
  shows "length out = length column \<and> set out \<subseteq> set column"
proof -
  from assms obtain gap where gap: "entity_gap entity = Inr gap"
    by (auto simp: get_opponent_def split: sum.splits)
  have pos: "0 < gap" using gap by (rule entity_gap_pos)
  have run: "enumerate_loop column gap 0 column (0, []) = Inr out"
    using assms unfolding get_opponent_run[OF gap] .
  have windows: "length column mod (2 * gap) = 0"
  proof (rule ccontr)
    assume "length column mod (2 * gap) \<noteq> 0"
    from walk_fails_off_windows[OF pos this] run show False by simp
  qed
  have out: "out = map (opponent_at column gap) [0..<length column]"
    using walk_succeeds_on_windows[OF pos windows] run by simp
  have "opponent_at column gap i \<in> set column" if "i < length column" for i
  proof (cases "i mod (2 * gap) < gap")
    case True
    then show ?thesis using window_ahead[OF windows that True] by (simp add: opponent_at_def)
  next
    case False
    then show ?thesis using that by (simp add: opponent_at_def less_imp_diff_less)
  qed
  then show ?thesis unfolding out by auto
qed

lemma pair_column_result:
  assumes "pair_column src field dst put split_on df = Inr out"
  shows "\<exists>opponent. get_opponent (map field (rows df)) split_on = Inr opponent
     \<and> length opponent = length (rows df) \<and> rows out = map2 put opponent (rows df)
     \<and> set (columns df) \<subseteq> set (columns out)"
  using assms
  by (auto simp: pair_column_def getitem_def setitem_def and_then_def split: if_splits sum.splits)

lemma pair_opponents_player:
  assumes "pair_opponents (Some ''player'') df = Inr out"
  shows "map teamid (rows out) = map teamid (rows df)"
    and "map playerid (rows out) = map playerid (rows df)"
    and "get_opponent (map teamid (rows df)) (Some ''player'') = Inr (map opponentteamid (rows out))"
    and "get_opponent (map playerid (rows df)) (Some ''player'') = Inr (map opponentid (rows out))"
proof -
  let ?e = "Some ''player''"
  from assms obtain a b c d where
    a: "pair_column ''teamname'' teamname ''opponentteam'' (\<lambda>v r. r\<lparr>opponentteam := v\<rparr>) ?e df = Inr a"
    and b: "pair_column ''teamid'' teamid ''opponentteamid'' (\<lambda>v r. r\<lparr>opponentteamid := v\<rparr>) ?e a = Inr b"
    and c: "pair_column ''playername'' playername ''opponentname'' (\<lambda>v r. r\<lparr>opponentname := v\<rparr>) ?e b = Inr c"
    and d: "pair_column ''playerid'' playerid ''opponentid'' (\<lambda>v r. r\<lparr>opponentid := v\<rparr>) ?e c = Inr d"
    and e: "pair_column ''earned gpm'' earned_gpm ''opponent_egpm'' (\<lambda>v r. r\<lparr>opponent_egpm := v\<rparr>) ?e d = Inr out"
    unfolding pair_opponents_def and_then_def by (auto split: sum.splits)
  from pair_column_result[OF a] obtain oa where
    oa: "length oa = length (rows df)" "rows a = map2 (\<lambda>v r. r\<lparr>opponentteam := v\<rparr>) oa (rows df)"
    by blast
  from pair_column_result[OF b] obtain ob where
    ob: "get_opponent (map teamid (rows a)) ?e = Inr ob" "length ob = length (rows a)"
      "rows b = map2 (\<lambda>v r. r\<lparr>opponentteamid := v\<rparr>) ob (rows a)"
    by blast
  from pair_column_result[OF c] obtain oc where
    oc: "length oc = length (rows b)" "rows c = map2 (\<lambda>v r. r\<lparr>opponentname := v\<rparr>) oc (rows b)"
    by blast
  from pair_column_result[OF d] obtain od where
    od: "get_opponent (map playerid (rows c)) ?e = Inr od" "length od = length (rows c)"
      "rows d = map2 (\<lambda>v r. r\<lparr>opponentid := v\<rparr>) od (rows c)"
    by blast
  from pair_column_result[OF e] obtain oe where
    oe: "length oe = length (rows d)" "rows out = map2 (\<lambda>v r. r\<lparr>opponent_egpm := v\<rparr>) oe (rows d)"
    by blast
  have ta: "map teamid (rows a) = map teamid (rows df)"
    unfolding oa(2) by (rule map2_keeps[OF oa(1)]) simp
  have tb: "map teamid (rows b) = map teamid (rows a)"
    unfolding ob(3) by (rule map2_keeps[OF ob(2)]) simp
  have tc: "map teamid (rows c) = map teamid (rows b)"
    unfolding oc(2) by (rule map2_keeps[OF oc(1)]) simp
  have td: "map teamid (rows d) = map teamid (rows c)"
    unfolding od(3) by (rule map2_keeps[OF od(2)]) simp
  have te: "map teamid (rows out) = map teamid (rows d)"
    unfolding oe(2) by (rule map2_keeps[OF oe(1)]) simp
  show "map teamid (rows out) = map teamid (rows df)"
    using ta tb tc td te by simp
  have pa: "map playerid (rows a) = map playerid (rows df)"
    unfolding oa(2) by (rule map2_keeps[OF oa(1)]) simp
  have pb: "map playerid (rows b) = map playerid (rows a)"
    unfolding ob(3) by (rule map2_keeps[OF ob(2)]) simp
  have pc: "map playerid (rows c) = map playerid (rows b)"
    unfolding oc(2) by (rule map2_keeps[OF oc(1)]) simp
  have pd: "map playerid (rows d) = map playerid (rows c)"
    unfolding od(3) by (rule map2_keeps[OF od(2)]) simp
  have pe: "map playerid (rows out) = map playerid (rows d)"
    unfolding oe(2) by (rule map2_keeps[OF oe(1)]) simp
  show "map playerid (rows out) = map playerid (rows df)"
    using pa pb pc pd pe by simp
  have "map opponentteamid (rows b) = ob"
    unfolding ob(3) by (rule map2_stores[OF ob(2)]) simp
  moreover have "map opponentteamid (rows c) = map opponentteamid (rows b)"
    unfolding oc(2) by (rule map2_keeps[OF oc(1)]) simp
  moreover have "map opponentteamid (rows d) = map opponentteamid (rows c)"
    unfolding od(3) by (rule map2_keeps[OF od(2)]) simp
  moreover have "map opponentteamid (rows out) = map opponentteamid (rows d)"
    unfolding oe(2) by (rule map2_keeps[OF oe(1)]) simp
  ultimately have "map opponentteamid (rows out) = ob" by simp
  then show "get_opponent (map teamid (rows df)) ?e = Inr (map opponentteamid (rows out))"
    using ob(1) ta by simp
  have "map opponentid (rows d) = od"
    unfolding od(3) by (rule map2_stores[OF od(2)]) simp
  moreover have "map opponentid (rows out) = map opponentid (rows d)"
    unfolding oe(2) by (rule map2_keeps[OF oe(1)]) simp
  ultimately have "map opponentid (rows out) = od" by simp
  then show "get_opponent (map playerid (rows df)) ?e = Inr (map opponentid (rows out))"
    using od(1) pa pb pc by simp
qed

lemma no_missing_iff: "None \<notin> set (map f xs) \<longleftrightarrow> (\<forall>r \<in> set xs. f r \<noteq> None)"
  by (induction xs) auto

lemma pair_column_succeeds:
  assumes "src \<in> set (columns df)" and "length (rows df) mod 10 = 0"
  shows "\<exists>out. pair_column src field dst put (Some ''player'') df = Inr out
     \<and> length (rows out) = length (rows df) \<and> set (columns df) \<subseteq> set (columns out)"
proof -
  let ?column = "map field (rows df)"
  let ?opp = "map (opponent_at ?column 5) [0..<length ?column]"
  have gap: "entity_gap (Some ''player'') = Inr 5" by (simp add: entity_gap_def)
  have "length ?column mod (2 * 5) = 0" using assms(2) by simp
  from walk_succeeds_on_windows[OF _ this]
  have "get_opponent ?column (Some ''player'') = Inr ?opp"
    unfolding get_opponent_run[OF gap] by simp
  then show ?thesis
    using assms(1) by (auto simp: pair_column_def getitem_def setitem_def and_then_def)
qed

lemma pair_opponents_succeeds:
  assumes "{''teamname'', ''teamid'', ''playername'', ''playerid'', ''earned gpm''} \<subseteq> set (columns df)"
    and "length (rows df) mod 10 = 0"
  shows "\<exists>out. pair_opponents (Some ''player'') df = Inr out"
proof -
  let ?e = "Some ''player''"
  let ?need = "{''teamname'', ''teamid'', ''playername'', ''playerid'', ''earned gpm''}"
  have c0: "''teamname'' \<in> set (columns df)" using assms(1) by simp
  from pair_column_succeeds[OF c0 assms(2), of teamname "''opponentteam''" "\<lambda>v r. r\<lparr>opponentteam := v\<rparr>"]
  obtain a where a: "pair_column ''teamname'' teamname ''opponentteam'' (\<lambda>v r. r\<lparr>opponentteam := v\<rparr>) ?e df = Inr a"
    and la: "length (rows a) = length (rows df)" and ca: "set (columns df) \<subseteq> set (columns a)" by blast
  have na: "?need \<subseteq> set (columns a)" using assms(1) ca by (rule subset_trans)
  have ma: "length (rows a) mod 10 = 0" using assms(2) la by simp
  have c1: "''teamid'' \<in> set (columns a)" using na by simp
  from pair_column_succeeds[OF c1 ma, of teamid "''opponentteamid''" "\<lambda>v r. r\<lparr>opponentteamid := v\<rparr>"]
  obtain b where b: "pair_column ''teamid'' teamid ''opponentteamid'' (\<lambda>v r. r\<lparr>opponentteamid := v\<rparr>) ?e a = Inr b"
    and lb: "length (rows b) = length (rows a)" and cb: "set (columns a) \<subseteq> set (columns b)" by blast
  have nb: "?need \<subseteq> set (columns b)" using na cb by (rule subset_trans)
  have mb: "length (rows b) mod 10 = 0" using ma lb by simp
  have c2: "''playername'' \<in> set (columns b)" using nb by simp
  from pair_column_succeeds[OF c2 mb, of playername "''opponentname''" "\<lambda>v r. r\<lparr>opponentname := v\<rparr>"]
  obtain c where c: "pair_column ''playername'' playername ''opponentname'' (\<lambda>v r. r\<lparr>opponentname := v\<rparr>) ?e b = Inr c"
    and lc: "length (rows c) = length (rows b)" and cc: "set (columns b) \<subseteq> set (columns c)" by blast
  have nc: "?need \<subseteq> set (columns c)" using nb cc by (rule subset_trans)
  have mc: "length (rows c) mod 10 = 0" using mb lc by simp
  have c3: "''playerid'' \<in> set (columns c)" using nc by simp
  from pair_column_succeeds[OF c3 mc, of playerid "''opponentid''" "\<lambda>v r. r\<lparr>opponentid := v\<rparr>"]
  obtain d where d: "pair_column ''playerid'' playerid ''opponentid'' (\<lambda>v r. r\<lparr>opponentid := v\<rparr>) ?e c = Inr d"
    and ld: "length (rows d) = length (rows c)" and cd: "set (columns c) \<subseteq> set (columns d)" by blast
  have nd: "?need \<subseteq> set (columns d)" using nc cd by (rule subset_trans)
  have md: "length (rows d) mod 10 = 0" using mc ld by simp
  have c4: "''earned gpm'' \<in> set (columns d)" using nd by simp
  from pair_column_succeeds[OF c4 md, of earned_gpm "''opponent_egpm''" "\<lambda>v r. r\<lparr>opponent_egpm := v\<rparr>"]
  obtain out where "pair_column ''earned gpm'' earned_gpm ''opponent_egpm'' (\<lambda>v r. r\<lparr>opponent_egpm := v\<rparr>) ?e d = Inr out"
    by blast
  with a b c d show ?thesis
    by (simp add: pair_opponents_def and_then_def)
qed

section \<open>Claims about \<open>get_opponent\<close>\<close>

text \<open>
  C1. On a column whose length is a multiple of \<open>2 * g\<close>, with \<open>g = 1\<close> for entity
  \<open>team\<close> and \<open>g = 5\<close> for entity \<open>player\<close>, \<open>get_opponent\<close> returns a list of
  the same length; within each window of \<open>2 * g\<close> positions, each of the first \<open>g\<close> positions
  receives the element \<open>g\<close> positions ahead and each of the next \<open>g\<close> the element \<open>g\<close>
  positions behind. On the two columns of the sorted team-view group (Blue, A, 250),
  (Red, B, 300) the result is B, A and 300, 250.
\<close>

theorem get_opponent_pairs_windows:
  assumes "(entity = Some ''team'' \<and> g = 1) \<or> (entity = Some ''player'' \<and> g = 5)"
    and "length column mod (2 * g) = 0"
  shows "(\<exists>out. get_opponent column entity = Inr out \<and> length out = length column \<and>
            (\<forall>i < length column.
               (i mod (2 * g) < g \<longrightarrow> i + g < length column \<and> out ! i = column ! (i + g)) \<and>
               (g \<le> i mod (2 * g) \<longrightarrow> g \<le> i \<and> out ! i = column ! (i - g))))
         \<and> get_opponent [''A'', ''B''] (Some ''team'') = Inr [''B'', ''A'']
         \<and> get_opponent [250, 300 :: real] (Some ''team'') = Inr [300, 250]"
proof (intro conjI)
  have gap: "entity_gap entity = Inr g" using assms(1) by (auto simp: entity_gap_def)
  have pos: "0 < g" using gap by (rule entity_gap_pos)
  let ?out = "map (opponent_at column g) [0..<length column]"
  have run: "get_opponent column entity = Inr ?out"
    unfolding get_opponent_run[OF gap] using walk_succeeds_on_windows[OF pos assms(2)] .
  have "\<forall>i < length column.
      (i mod (2 * g) < g \<longrightarrow> i + g < length column \<and> ?out ! i = column ! (i + g)) \<and>
      (g \<le> i mod (2 * g) \<longrightarrow> g \<le> i \<and> ?out ! i = column ! (i - g))"
  proof (intro allI impI conjI)
    fix i assume "i < length column" "i mod (2 * g) < g"
    then show "i + g < length column" using window_ahead[OF assms(2)] by blast
  next
    fix i assume "i < length column" "i mod (2 * g) < g"
    then show "?out ! i = column ! (i + g)" by (simp add: opponent_at_def)
  next
    fix i assume "i < length column" "g \<le> i mod (2 * g)"
    then show "g \<le> i" using mod_ge_imp_ge by blast
  next
    fix i assume "i < length column" "g \<le> i mod (2 * g)"
    then show "?out ! i = column ! (i - g)" by (simp add: opponent_at_def)
  qed
  with run show "\<exists>out. get_opponent column entity = Inr out \<and> length out = length column \<and>
            (\<forall>i < length column.
               (i mod (2 * g) < g \<longrightarrow> i + g < length column \<and> out ! i = column ! (i + g)) \<and>
               (g \<le> i mod (2 * g) \<longrightarrow> g \<le> i \<and> out ! i = column ! (i - g)))"
    by (intro exI[of _ ?out]) simp
next
  show "get_opponent [''A'', ''B''] (Some ''team'') = Inr [''B'', ''A'']"
    by (simp add: get_opponent_def entity_gap_def loop_body_def py_getitem_def reset_flag_def)
next
  show "get_opponent [250, 300 :: real] (Some ''team'') = Inr [300, 250]"
    by (simp add: get_opponent_def entity_gap_def loop_body_def py_getitem_def reset_flag_def)
qed

theorem get_opponent_pairs_windows_witness:
  "length [''A'', ''B'', ''C'', ''D''] mod (2 * 1) = 0 \<and>
   (\<exists>out. get_opponent [''A'', ''B'', ''C'', ''D''] (Some ''team'') = Inr out \<and> length out = 4 \<and>
      out ! 0 = ''B'' \<and> out ! 1 = ''A'' \<and> out ! 2 = ''D'' \<and> out ! 3 = ''C'')"
proof -
  have e: "(Some ''team'' = Some ''team'' \<and> (1::nat) = 1) \<or> (Some ''team'' = Some ''player'' \<and> (1::nat) = 5)"
    by simp
  have m: "length [''A'', ''B'', ''C'', ''D''] mod (2 * 1) = 0" by simp
  from get_opponent_pairs_windows[OF e m] obtain out where
    out: "get_opponent [''A'', ''B'', ''C'', ''D''] (Some ''team'') = Inr out"
      "length out = length [''A'', ''B'', ''C'', ''D'']"
    and pair: "\<forall>i < length [''A'', ''B'', ''C'', ''D''].
       (i mod (2 * 1) < 1 \<longrightarrow> i + 1 < length [''A'', ''B'', ''C'', ''D''] \<and> out ! i = [''A'', ''B'', ''C'', ''D''] ! (i + 1)) \<and>
       (1 \<le> i mod (2 * 1) \<longrightarrow> 1 \<le> i \<and> out ! i = [''A'', ''B'', ''C'', ''D''] ! (i - 1))"
    by blast
  have "out ! 0 = ''B''" using pair[rule_format, of 0] by simp
  moreover have "out ! 1 = ''A''" using pair[rule_format, of 1] by simp
  moreover have "out ! 2 = ''D''" using pair[rule_format, of 2] by simp
  moreover have "out ! 3 = ''C''" using pair[rule_format, of 3] by simp
  ultimately show ?thesis using out m by auto
qed

text \<open>
  C3. Opponent pairing is involutive: on a column whose length is a multiple of \<open>2 * g\<close>
  (\<open>g = 1\<close> for \<open>team\<close>, \<open>g = 5\<close> for \<open>player\<close>), \<open>get_opponent\<close> succeeds, and applied to
  its own result it succeeds again and returns the original column.
\<close>

theorem get_opponent_involutive:
  assumes "(entity = Some ''team'' \<and> g = 1) \<or> (entity = Some ''player'' \<and> g = 5)"
    and "length column mod (2 * g) = 0"
  shows "\<exists>paired. get_opponent column entity = Inr paired \<and> get_opponent paired entity = Inr column"
proof -
  have gap: "entity_gap entity = Inr g" using assms(1) by (auto simp: entity_gap_def)
  have pos: "0 < g" using gap by (rule entity_gap_pos)
  let ?paired = "map (opponent_at column g) [0..<length column]"
  have first: "get_opponent column entity = Inr ?paired"
    unfolding get_opponent_run[OF gap] using walk_succeeds_on_windows[OF pos assms(2)] .
  have len: "length ?paired mod (2 * g) = 0" using assms(2) by simp
  have "get_opponent ?paired entity = Inr (map (opponent_at ?paired g) [0..<length ?paired])"
    unfolding get_opponent_run[OF gap] using walk_succeeds_on_windows[OF pos len] .
  also have "map (opponent_at ?paired g) [0..<length ?paired] = column"
    using opponent_at_involutive[OF pos assms(2)] by simp
  finally show ?thesis using first by blast
qed

theorem get_opponent_involutive_witness:
  "length [1, 2, 3, 4, 5, 6, 7, 8, 9, 10 :: nat] mod (2 * 5) = 0 \<and>
   get_opponent [1, 2, 3, 4, 5, 6, 7, 8, 9, 10 :: nat] (Some ''player'') = Inr [6, 7, 8, 9, 10, 1, 2, 3, 4, 5] \<and>
   get_opponent [6, 7, 8, 9, 10, 1, 2, 3, 4, 5 :: nat] (Some ''player'') = Inr [1, 2, 3, 4, 5, 6, 7, 8, 9, 10]"
proof -
  have e: "(Some ''player'' = Some ''team'' \<and> (5::nat) = 1) \<or> (Some ''player'' = Some ''player'' \<and> (5::nat) = 5)"
    by simp
  have m: "length [1, 2, 3, 4, 5, 6, 7, 8, 9, 10 :: nat] mod (2 * 5) = 0" by simp
  have run: "get_opponent [1, 2, 3, 4, 5, 6, 7, 8, 9, 10 :: nat] (Some ''player'') = Inr [6, 7, 8, 9, 10, 1, 2, 3, 4, 5]"
    by (simp add: get_opponent_def entity_gap_def loop_body_def py_getitem_def reset_flag_def)
  from get_opponent_involutive[OF e m] run m show ?thesis by auto
qed

text \<open>
  C4. Whenever an iteration the walk reaches looks up a position past the end of the
  column, \<open>get_opponent\<close> raises \<open>IndexError\<close> and returns no list; no reached
  iteration looks up a position before the start (so Python's wrap-around of negative
  indices never comes into play); and every column whose length is not a multiple of
  \<open>2 * g\<close> is such an input.
\<close>

theorem get_opponent_fails_out_of_range:
  assumes "(entity = Some ''team'' \<and> g = 1) \<or> (entity = Some ''player'' \<and> g = 5)"
  shows "(\<forall>i flag opponent. at_iteration column g i (flag, opponent) \<and> i < length column \<longrightarrow>
            0 \<le> addressed g i flag \<and>
            (int (length column) \<le> addressed g i flag \<longrightarrow> get_opponent column entity = Inl IndexError))
         \<and> (length column mod (2 * g) \<noteq> 0 \<longrightarrow> get_opponent column entity = Inl IndexError)"
proof (intro conjI allI impI)
  have gap: "entity_gap entity = Inr g" using assms by (auto simp: entity_gap_def)
  have pos: "0 < g" using gap by (rule entity_gap_pos)
  {
    fix i flag opponent
    assume a: "at_iteration column g i (flag, opponent) \<and> i < length column"
    have flag: "flag = i mod (2 * g)" using at_iteration_flag[of column g i "(flag, opponent)"] a pos by simp
    show "0 \<le> addressed g i flag"
      using mod_ge_imp_ge[of g i "2 * g"] unfolding addressed_def flag by simp
    assume past: "int (length column) \<le> addressed g i flag"
    have "flag < g"
    proof (rule ccontr)
      assume "\<not> flag < g"
      then have "addressed g i flag = int i - int g" by (simp add: addressed_def)
      with past a show False by linarith
    qed
    moreover from this past have "length column \<le> i + g" by (simp add: addressed_def)
    ultimately show "get_opponent column entity = Inl IndexError"
      unfolding get_opponent_run[OF gap] flag using walk_fails_past_end[OF pos] a by blast
  }
  assume "length column mod (2 * g) \<noteq> 0"
  then show "get_opponent column entity = Inl IndexError"
    unfolding get_opponent_run[OF gap] by (rule walk_fails_off_windows[OF pos])
qed

theorem get_opponent_fails_out_of_range_witness:
  "at_iteration [1, 2, 3 :: nat] 1 2 (0, [2, 1]) \<and> (2::nat) < length [1, 2, 3 :: nat] \<and>
   int (length [1, 2, 3 :: nat]) \<le> addressed 1 2 0 \<and>
   length [1, 2, 3 :: nat] mod (2 * 1) \<noteq> 0 \<and>
   get_opponent [1, 2, 3 :: nat] (Some ''team'') = Inl IndexError"
proof -
  have e: "(Some ''team'' = Some ''team'' \<and> (1::nat) = 1) \<or> (Some ''team'' = Some ''player'' \<and> (1::nat) = 5)"
    by simp
  have s1: "at_iteration [1, 2, 3 :: nat] 1 (Suc 0) (1, [2])"
    by (rule at_next[OF at_start]) (simp_all add: loop_body_def py_getitem_def reset_flag_def)
  have s2: "at_iteration [1, 2, 3 :: nat] 1 (Suc (Suc 0)) (0, [2, 1])"
    by (rule at_next[OF s1]) (simp_all add: loop_body_def py_getitem_def reset_flag_def)
  have two: "Suc (Suc 0) = 2" by simp
  have r: "at_iteration [1, 2, 3 :: nat] 1 2 (0, [2, 1])" using s2 unfolding two .
  have m: "length [1, 2, 3 :: nat] mod (2 * 1) \<noteq> 0" by simp
  have p: "int (length [1, 2, 3 :: nat]) \<le> addressed 1 2 0" by (simp add: addressed_def)
  from get_opponent_fails_out_of_range[OF e, of "[1, 2, 3]"] m
  have "get_opponent [1, 2, 3 :: nat] (Some ''team'') = Inl IndexError" by blast
  with r m p show ?thesis by simp
qed

text \<open>
  C10. The "Out Of Bounds" branch of the loop is unreachable: at the start of every
  iteration the walk reaches, for both entities, the flag is below \<open>2 * g\<close>, so one of the
  two look-up branches is taken; the iteration does not raise the "Out Of Bounds"
  \<open>ValueError\<close>, and neither does \<open>get_opponent\<close>.
\<close>

theorem out_of_bounds_branch_unreachable:
  assumes "(entity = Some ''team'' \<and> g = 1) \<or> (entity = Some ''player'' \<and> g = 5)"
    and "at_iteration column g i (flag, opponent)"
  shows "flag < 2 * g \<and> (flag < g \<or> (g \<le> flag \<and> flag < g * 2))
         \<and> (\<forall>n. loop_body column g i (flag, opponent) \<noteq> Inl (OutOfBoundsValueError n))
         \<and> (\<forall>n. get_opponent column entity \<noteq> Inl (OutOfBoundsValueError n))"
proof -
  have gap: "entity_gap entity = Inr g" using assms(1) by (auto simp: entity_gap_def)
  have pos: "0 < g" using gap by (rule entity_gap_pos)
  have "flag = i mod (2 * g)" using at_iteration_flag[OF assms(2) pos] by simp
  then have bound: "flag < 2 * g" using pos by simp
  then have branch: "flag < g \<or> (g \<le> flag \<and> flag < g * 2)" by linarith
  have body: "loop_body column g i (flag, opponent) \<noteq> Inl (OutOfBoundsValueError n)" for n
    using branch unfolding loop_body_def py_getitem_def Let_def
    by (auto split: sum.splits if_splits)
  have run: "get_opponent column entity \<noteq> Inl (OutOfBoundsValueError n)" for n
    unfolding get_opponent_run[OF gap] using walk_result_cases[OF pos, of column] by auto
  from bound branch body run show ?thesis by blast
qed

theorem out_of_bounds_branch_unreachable_witness:
  "at_iteration [10, 20 :: nat] 1 1 (1, [20]) \<and> (1::nat) < 2 * 1 \<and>
   loop_body [10, 20 :: nat] 1 1 (1, [20]) = Inr (0, [20, 10]) \<and>
   get_opponent [10, 20 :: nat] (Some ''team'') = Inr [20, 10]"
proof -
  have e: "(Some ''team'' = Some ''team'' \<and> (1::nat) = 1) \<or> (Some ''team'' = Some ''player'' \<and> (1::nat) = 5)"
    by simp
  have s1: "at_iteration [10, 20 :: nat] 1 (Suc 0) (1, [20])"
    by (rule at_next[OF at_start]) (simp_all add: loop_body_def py_getitem_def reset_flag_def)
  then have r: "at_iteration [10, 20 :: nat] 1 1 (1, [20])" by simp
  have b: "loop_body [10, 20 :: nat] 1 1 (1, [20]) = Inr (0, [20, 10])"
    by (simp add: loop_body_def py_getitem_def reset_flag_def)
  have g: "get_opponent [10, 20 :: nat] (Some ''team'') = Inr [20, 10]"
    by (simp add: get_opponent_def entity_gap_def loop_body_def py_getitem_def reset_flag_def)
  from out_of_bounds_branch_unreachable[OF e r] r b g show ?thesis by simp
qed

section \<open>Claims about the table operations\<close>

text \<open>
  C2. On a table with a \<open>gameid\<close> column, \<open>remove_inconsistent_games\<close> returns a table
  in which, for \<open>split_on = team\<close>, every remaining game id has exactly 2 rows and, for
  \<open>split_on = player\<close>, every remaining game id has between 1 and 10 rows. A game id whose
  count violates the bound does not remain at all, and a game id that remains keeps all of
  its rows.
\<close>

theorem remove_inconsistent_games_bounds:
  assumes "''gameid'' \<in> set (columns df)"
  shows "\<exists>out. remove_inconsistent_games split_on df = Inr out \<and>
     (split_on = Some ''team'' \<longrightarrow>
        (\<forall>g. Some g \<in> set (map gameid (rows out)) \<longrightarrow> count_list (map gameid (rows out)) (Some g) = 2) \<and>
        (\<forall>g. count_list (map gameid (rows df)) (Some g) \<noteq> 2 \<longrightarrow> Some g \<notin> set (map gameid (rows out)))) \<and>
     (split_on = Some ''player'' \<longrightarrow>
        (\<forall>g. Some g \<in> set (map gameid (rows out)) \<longrightarrow>
           1 \<le> count_list (map gameid (rows out)) (Some g) \<and> count_list (map gameid (rows out)) (Some g) \<le> 10) \<and>
        (\<forall>g. count_list (map gameid (rows df)) (Some g) < 1 \<or> count_list (map gameid (rows df)) (Some g) > 10 \<longrightarrow>
           Some g \<notin> set (map gameid (rows out)))) \<and>
     (\<forall>g. Some g \<in> set (map gameid (rows out)) \<longrightarrow>
        filter (\<lambda>r. gameid r = Some g) (rows out) = filter (\<lambda>r. gameid r = Some g) (rows df))"
proof -
  let ?ids = "map gameid (rows df)"
  let ?kept = "filter (\<lambda>r. \<not> isin_inconsistent split_on (value_counts ?ids) (gameid r)) (rows df)"
  let ?out = "df\<lparr>rows := ?kept\<rparr>"
  have run: "remove_inconsistent_games split_on df = Inr ?out"
    using assms by (simp add: remove_inconsistent_games_eq)
  have rows: "rows ?out = ?kept" by simp
  note rem = remaining_game[OF refl, of _ split_on "rows df"]
  have team: "split_on = Some ''team'' \<Longrightarrow> Some g \<in> set (map gameid ?kept) \<Longrightarrow>
      count_list (map gameid ?kept) (Some g) = 2" for g
    using rem(1)[of g] rem(2)[of g] by (simp add: inconsistent_count_def)
  have team_gone: "split_on = Some ''team'' \<Longrightarrow> count_list ?ids (Some g) \<noteq> 2 \<Longrightarrow>
      Some g \<notin> set (map gameid ?kept)" for g
    using rem(1)[of g] by (simp add: inconsistent_count_def)
  have player: "split_on = Some ''player'' \<Longrightarrow> Some g \<in> set (map gameid ?kept) \<Longrightarrow>
      1 \<le> count_list (map gameid ?kept) (Some g) \<and> count_list (map gameid ?kept) (Some g) \<le> 10" for g
    using rem(1)[of g] rem(2)[of g] by (auto simp: inconsistent_count_def)
  have player_gone: "split_on = Some ''player'' \<Longrightarrow>
      count_list ?ids (Some g) < 1 \<or> count_list ?ids (Some g) > 10 \<Longrightarrow>
      Some g \<notin> set (map gameid ?kept)" for g
    using rem(1)[of g] by (auto simp: inconsistent_count_def)
  have whole: "Some g \<in> set (map gameid ?kept) \<Longrightarrow>
      filter (\<lambda>r. gameid r = Some g) ?kept = filter (\<lambda>r. gameid r = Some g) (rows df)" for g
    using rem(3)[of g] .
  show ?thesis
    unfolding run
    apply (intro exI[of _ ?out] conjI impI allI)
          apply (rule refl)
    unfolding rows
    using team team_gone player player_gone whole by blast+
qed

theorem remove_inconsistent_games_bounds_witness:
  "''gameid'' \<in> set [''gameid'', ''side''] \<and>
   remove_inconsistent_games (Some ''team'') \<lparr>columns = [''gameid'', ''side''], rows = ex_games\<rparr>
     = Inr \<lparr>columns = [''gameid'', ''side''], rows = take 2 ex_games\<rparr> \<and>
   count_list (map gameid (take 2 ex_games)) (Some ''g1'') = 2 \<and>
   count_list (map gameid ex_games) (Some ''g2'') = 3 \<and>
   Some ''g2'' \<notin> set (map gameid (take 2 ex_games))"
proof -
  let ?df = "\<lparr>columns = [''gameid'', ''side''], rows = ex_games\<rparr>"
  have c: "''gameid'' \<in> set (columns ?df)" by simp
  have run: "remove_inconsistent_games (Some ''team'') ?df
      = Inr \<lparr>columns = [''gameid'', ''side''], rows = take 2 ex_games\<rparr>"
    by (simp add: remove_inconsistent_games_def getitem_def boolean_mask_def and_then_def
        isin_inconsistent_def value_counts_def inconsistent_count_def ex_games_def blank_row_def)
  have three: "count_list (map gameid ex_games) (Some ''g2'') = 3"
    by (simp add: ex_games_def blank_row_def)
  have one: "Some ''g1'' \<in> set (map gameid (take 2 ex_games))"
    by (simp add: ex_games_def blank_row_def)
  from remove_inconsistent_games_bounds[OF c, of "Some ''team''"] run one three
  have "count_list (map gameid (take 2 ex_games)) (Some ''g1'') = 2"
    and "Some ''g2'' \<notin> set (map gameid (take 2 ex_games))"
    by auto
  with run three show ?thesis by simp
qed

text \<open>
  C5. \<open>format_data_types\<close> returns no table: on every input it raises, and on a well-formed
  one-row table with a parsable date it raises \<open>AttributeError\<close> at the \<open>.str\<close> of lines
  106 to 108, before any identifier is trimmed or replaced. On a date that does not parse
  it raises the parser's error.
\<close>

theorem format_data_types_always_raises:
  "(\<forall>out. format_data_types parse df \<noteq> Inr out) \<and>
   format_data_types (\<lambda>s. Some 0)
     \<lparr>columns = [''date'', ''gameid'', ''playerid'', ''teamid'', ''position''],
      rows = [(blank_row (Some ''2024-01-20''))\<lparr>gameid := Some '' g1 '', playerid := Some ''nan'',
                 teamid := Some ''t1'', position := Some ''top''\<rparr>]\<rparr>
     = Inl AttributeError \<and>
   format_data_types (\<lambda>s. None)
     \<lparr>columns = [''date'', ''gameid'', ''playerid'', ''teamid'', ''position''],
      rows = [(blank_row (Some ''no date''))\<lparr>gameid := Some ''g1''\<rparr>]\<rparr>
     = Inl DateParseError"
proof (intro conjI)
  show "\<forall>out. format_data_types parse df \<noteq> Inr out"
    using format_data_types_cases[of parse df] by auto
next
  show "format_data_types (\<lambda>s. None)
     \<lparr>columns = [''date'', ''gameid'', ''playerid'', ''teamid'', ''position''],
      rows = [(blank_row (Some ''no date''))\<lparr>gameid := Some ''g1''\<rparr>]\<rparr>
     = Inl DateParseError"
    by (simp add: format_data_types_def getitem_def to_datetime_def and_then_def blank_row_def)
next
  show "format_data_types (\<lambda>s. Some 0)
     \<lparr>columns = [''date'', ''gameid'', ''playerid'', ''teamid'', ''position''],
      rows = [(blank_row (Some ''2024-01-20''))\<lparr>gameid := Some '' g1 '', playerid := Some ''nan'',
                 teamid := Some ''t1'', position := Some ''top''\<rparr>]\<rparr>
     = Inl AttributeError"
    by (simp add: format_data_types_def getitem_def to_datetime_def setitem_date_def
        select_columns_def dataframe_str_strip_def and_then_def blank_row_def)
qed

text \<open>
  C6. For every \<open>split_on\<close> or entity other than \<open>team\<close> and \<open>player\<close> (Python's \<open>None\<close>
  included), \<open>subset_data\<close> and \<open>get_opponent\<close> raise their \<open>ValueError\<close> and return
  nothing, whatever the table or the column.
\<close>

theorem invalid_split_raises:
  assumes "split_on \<noteq> Some ''team''" and "split_on \<noteq> Some ''player''"
  shows "subset_data split_on df = Inl SplitValueError \<and> get_opponent column split_on = Inl EntityValueError"
  using assms by (simp add: subset_data_def get_opponent_def entity_gap_def)

theorem invalid_split_raises_witness:
  "Some ''all'' \<noteq> Some ''team'' \<and> Some ''all'' \<noteq> Some ''player'' \<and>
   subset_data (Some ''all'') \<lparr>columns = team_columns, rows = [blank_row (0::int)]\<rparr> = Inl SplitValueError \<and>
   get_opponent [''A'', ''B''] (Some ''all'') = Inl EntityValueError \<and>
   subset_data None \<lparr>columns = team_columns, rows = [blank_row (0::int)]\<rparr> = Inl SplitValueError \<and>
   get_opponent [''A'', ''B''] None = Inl EntityValueError"
proof -
  have a: "Some ''all'' \<noteq> Some ''team''" and b: "Some ''all'' \<noteq> Some ''player''" by simp_all
  have c: "None \<noteq> Some ''team''" and d: "None \<noteq> Some ''player''" by simp_all
  from invalid_split_raises[OF a b] invalid_split_raises[OF c d] a b show ?thesis by blast
qed

text \<open>
  C7. The four row filters, applied in the order of \<open>clean_data\<close>, are idempotent: running
  the sequence on its own result gives the result of running it once (also when a column is
  missing and it raises \<open>KeyError\<close>).
\<close>

theorem row_filters_idempotent:
  "and_then (row_filters df) row_filters = row_filters df"
  by (simp add: row_filters_eq and_then_simps)

theorem row_filters_idempotent_witness:
  "row_filters \<lparr>columns = ex_cols, rows = ex_raw\<rparr> = Inr \<lparr>columns = ex_cols, rows = [ex_raw ! 0]\<rparr> \<and>
   row_filters \<lparr>columns = ex_cols, rows = [ex_raw ! 0]\<rparr> = Inr \<lparr>columns = ex_cols, rows = [ex_raw ! 0]\<rparr>"
proof -
  have run: "row_filters \<lparr>columns = ex_cols, rows = ex_raw\<rparr> = Inr \<lparr>columns = ex_cols, rows = [ex_raw ! 0]\<rparr>"
    by (simp add: row_filters_def format_ids_def remove_null_games_def drop_unknown_entities_def
        drop_negative_earned_gpm_def boolean_mask_def and_then_def ex_cols_def ex_raw_def blank_row_def
        notna_def ge_zero_def)
  from row_filters_idempotent[of "\<lparr>columns = ex_cols, rows = ex_raw\<rparr>"] run
  show ?thesis by (simp add: and_then_def)
qed


section \<open>Claims about flattening\<close>




section \<open>Claims about the identity backfill\<close>

text \<open>
  C8. On a player-view table in which no row lacks a team name or a player name,
  \<open>fill_null_team_ids\<close> and then the first statement of \<open>enrich_opponent_metrics\<close> return
  a table in which no row lacks a team id or a player id: a missing team id has become the
  row's team name, a missing player id the row's player name. The opponent columns are
  computed from that table, after the substitution: \<open>enrich_opponent_metrics\<close> is the
  pairing of the backfilled table, it returns when the \<open>earned gpm\<close> column exists and the
  number of rows is a multiple of 10, and in every table it returns the looked-up
  \<open>opponentteamid\<close> and \<open>opponentid\<close> columns are the pairings of the backfilled columns and
  hold no missing value.
\<close>

theorem identity_backfill_before_pairing:
  assumes cols: "{''teamid'', ''teamname'', ''playerid'', ''playername''} \<subseteq> set (columns df)"
    and names: "\<forall>r \<in> set (rows df). teamname r \<noteq> None \<and> playername r \<noteq> None"
  shows "\<exists>df1 df2.
      fill_null_team_ids (Some ''player'') df = Inr df1 \<and> fill_null_player_ids df1 = Inr df2 \<and>
      enrich_opponent_metrics (Some ''player'') df1 = pair_opponents (Some ''player'') df2 \<and>
      map teamid (rows df2) = map (\<lambda>r. case teamid r of None \<Rightarrow> teamname r | Some t \<Rightarrow> Some t) (rows df) \<and>
      map playerid (rows df2) = map (\<lambda>r. case playerid r of None \<Rightarrow> playername r | Some p \<Rightarrow> Some p) (rows df) \<and>
      (\<forall>r \<in> set (rows df2). teamid r \<noteq> None \<and> playerid r \<noteq> None) \<and>
      (''earned gpm'' \<in> set (columns df) \<and> length (rows df) mod 10 = 0 \<longrightarrow>
         (\<exists>out. enrich_opponent_metrics (Some ''player'') df1 = Inr out)) \<and>
      (\<forall>out. enrich_opponent_metrics (Some ''player'') df1 = Inr out \<longrightarrow>
         map teamid (rows out) = map teamid (rows df2) \<and>
         map playerid (rows out) = map playerid (rows df2) \<and>
         get_opponent (map teamid (rows df2)) (Some ''player'') = Inr (map opponentteamid (rows out)) \<and>
         get_opponent (map playerid (rows df2)) (Some ''player'') = Inr (map opponentid (rows out)) \<and>
         (\<forall>r \<in> set (rows out).
            teamid r \<noteq> None \<and> playerid r \<noteq> None \<and> opponentteamid r \<noteq> None \<and> opponentid r \<noteq> None))"
proof -
  let ?df1 = "\<lparr>columns = columns df,
      rows = map (\<lambda>r. r\<lparr>teamid := fillna (teamid r) (teamname r)\<rparr>) (rows df)\<rparr>"
  let ?df2 = "\<lparr>columns = columns df,
      rows = map (\<lambda>r. r\<lparr>playerid := fillna (playerid r) (playername r)\<rparr>) (rows ?df1)\<rparr>"
  have s1: "fill_null_team_ids (Some ''player'') df = Inr ?df1"
    using cols by (intro fill_null_team_ids_player) simp_all
  have s2: "fill_null_player_ids ?df1 = Inr ?df2"
    using cols fill_null_player_ids_eq[of ?df1] by simp
  have s3: "enrich_opponent_metrics (Some ''player'') ?df1 = pair_opponents (Some ''player'') ?df2"
    by (simp add: enrich_opponent_metrics_def s2 and_then_def)
  have t2: "map teamid (rows ?df2) = map (\<lambda>r. case teamid r of None \<Rightarrow> teamname r | Some t \<Rightarrow> Some t) (rows df)"
    by (simp add: fillna_def comp_def split: option.splits)
  have p2: "map playerid (rows ?df2) = map (\<lambda>r. case playerid r of None \<Rightarrow> playername r | Some p \<Rightarrow> Some p) (rows df)"
    by (simp add: fillna_def comp_def split: option.splits)
  have nn: "\<forall>r \<in> set (rows ?df2). teamid r \<noteq> None \<and> playerid r \<noteq> None"
    using names by (auto simp: fillna_def split: option.splits)
  have after: "map teamid (rows out) = map teamid (rows ?df2) \<and>
         map playerid (rows out) = map playerid (rows ?df2) \<and>
         get_opponent (map teamid (rows ?df2)) (Some ''player'') = Inr (map opponentteamid (rows out)) \<and>
         get_opponent (map playerid (rows ?df2)) (Some ''player'') = Inr (map opponentid (rows out)) \<and>
         (\<forall>r \<in> set (rows out).
            teamid r \<noteq> None \<and> playerid r \<noteq> None \<and> opponentteamid r \<noteq> None \<and> opponentid r \<noteq> None)"
    if "enrich_opponent_metrics (Some ''player'') ?df1 = Inr out" for out
  proof -
    have run: "pair_opponents (Some ''player'') ?df2 = Inr out" using that s3 by simp
    note po = pair_opponents_player[OF run]
    have tset: "None \<notin> set (map teamid (rows ?df2))" and pset: "None \<notin> set (map playerid (rows ?df2))"
      using nn by auto
    have "None \<notin> set (map teamid (rows out))" using po(1) tset by simp
    moreover have "None \<notin> set (map playerid (rows out))" using po(2) pset by simp
    moreover have "None \<notin> set (map opponentteamid (rows out))"
      using get_opponent_elements[OF po(3)] tset by blast
    moreover have "None \<notin> set (map opponentid (rows out))"
      using get_opponent_elements[OF po(4)] pset by blast
    ultimately have "\<forall>r \<in> set (rows out).
        teamid r \<noteq> None \<and> playerid r \<noteq> None \<and> opponentteamid r \<noteq> None \<and> opponentid r \<noteq> None"
      unfolding no_missing_iff by blast
    with po show ?thesis by blast
  qed
  have returns: "\<exists>out. enrich_opponent_metrics (Some ''player'') ?df1 = Inr out"
    if "''earned gpm'' \<in> set (columns df) \<and> length (rows df) mod 10 = 0"
    unfolding s3 using that cols by (intro pair_opponents_succeeds) simp_all
  show ?thesis
    apply (rule exI[of _ ?df1], rule exI[of _ ?df2])
    using s1 s2 s3 t2 p2 nn returns after by blast
qed

theorem identity_backfill_before_pairing_witness:
  "{''teamid'', ''teamname'', ''playerid'', ''playername''} \<subseteq> set (columns ex_players) \<and>
   None \<notin> set (map teamname (rows ex_players)) \<and> None \<notin> set (map playername (rows ex_players)) \<and>
   ''earned gpm'' \<in> set (columns ex_players) \<and> length (rows ex_players) mod 10 = 0 \<and>
   (\<exists>df1 out. fill_null_team_ids (Some ''player'') ex_players = Inr df1 \<and>
      enrich_opponent_metrics (Some ''player'') df1 = Inr out \<and>
      map teamid (rows out) =
        [Some ''ta'', Some ''A'', Some ''ta'', Some ''ta'', Some ''ta'',
         Some ''B'', Some ''tb'', Some ''tb'', Some ''tb'', Some ''tb''] \<and>
      map playerid (rows out) =
        [Some ''p1'', Some ''a2'', Some ''p3'', Some ''p4'', Some ''p5'',
         Some ''q1'', Some ''q2'', Some ''b3'', Some ''q4'', Some ''q5''] \<and>
      map opponentteamid (rows out) =
        [Some ''B'', Some ''tb'', Some ''tb'', Some ''tb'', Some ''tb'',
         Some ''ta'', Some ''A'', Some ''ta'', Some ''ta'', Some ''ta''] \<and>
      map opponentid (rows out) =
        [Some ''q1'', Some ''q2'', Some ''b3'', Some ''q4'', Some ''q5'',
         Some ''p1'', Some ''a2'', Some ''p3'', Some ''p4'', Some ''p5''])"
proof -
  have cols: "{''teamid'', ''teamname'', ''playerid'', ''playername''} \<subseteq> set (columns ex_players)"
    by (simp add: ex_players_def)
  have names: "\<forall>r \<in> set (rows ex_players). teamname r \<noteq> None \<and> playername r \<noteq> None"
    by (simp add: ex_players_def player_row_def blank_row_def)
  have more: "''earned gpm'' \<in> set (columns ex_players) \<and> length (rows ex_players) mod 10 = 0"
    by (simp add: ex_players_def)
  obtain df1 df2 where
    s1: "fill_null_team_ids (Some ''player'') ex_players = Inr df1"
    and s2: "fill_null_player_ids df1 = Inr df2"
    and s3: "enrich_opponent_metrics (Some ''player'') df1 = pair_opponents (Some ''player'') df2"
    and t2: "map teamid (rows df2) =
        map (\<lambda>r. case teamid r of None \<Rightarrow> teamname r | Some t \<Rightarrow> Some t) (rows ex_players)"
    and p2: "map playerid (rows df2) =
        map (\<lambda>r. case playerid r of None \<Rightarrow> playername r | Some p \<Rightarrow> Some p) (rows ex_players)"
    and nn: "\<forall>r \<in> set (rows df2). teamid r \<noteq> None \<and> playerid r \<noteq> None"
    and returns: "''earned gpm'' \<in> set (columns ex_players) \<and> length (rows ex_players) mod 10 = 0 \<longrightarrow>
        (\<exists>out. enrich_opponent_metrics (Some ''player'') df1 = Inr out)"
    and after: "\<forall>out. enrich_opponent_metrics (Some ''player'') df1 = Inr out \<longrightarrow>
         map teamid (rows out) = map teamid (rows df2) \<and>
         map playerid (rows out) = map playerid (rows df2) \<and>
         get_opponent (map teamid (rows df2)) (Some ''player'') = Inr (map opponentteamid (rows out)) \<and>
         get_opponent (map playerid (rows df2)) (Some ''player'') = Inr (map opponentid (rows out)) \<and>
         (\<forall>r \<in> set (rows out).
            teamid r \<noteq> None \<and> playerid r \<noteq> None \<and> opponentteamid r \<noteq> None \<and> opponentid r \<noteq> None)"
  proof -
    from identity_backfill_before_pairing[OF cols names] show ?thesis
      by (elim exE conjE) (rule that, assumption+)
  qed
  from returns more obtain out where run: "enrich_opponent_metrics (Some ''player'') df1 = Inr out"
    by blast
  have tv: "map teamid (rows df2) =
        [Some ''ta'', Some ''A'', Some ''ta'', Some ''ta'', Some ''ta'',
         Some ''B'', Some ''tb'', Some ''tb'', Some ''tb'', Some ''tb'']"
    unfolding t2 by (simp add: ex_players_def player_row_def blank_row_def)
  have pv: "map playerid (rows df2) =
        [Some ''p1'', Some ''a2'', Some ''p3'', Some ''p4'', Some ''p5'',
         Some ''q1'', Some ''q2'', Some ''b3'', Some ''q4'', Some ''q5'']"
    unfolding p2 by (simp add: ex_players_def player_row_def blank_row_def)
  have to: "get_opponent
        [Some ''ta'', Some ''A'', Some ''ta'', Some ''ta'', Some ''ta'',
         Some ''B'', Some ''tb'', Some ''tb'', Some ''tb'', Some ''tb''] (Some ''player'') =
      Inr [Some ''B'', Some ''tb'', Some ''tb'', Some ''tb'', Some ''tb'',
         Some ''ta'', Some ''A'', Some ''ta'', Some ''ta'', Some ''ta'']"
    by (simp add: get_opponent_def entity_gap_def loop_body_def py_getitem_def reset_flag_def)
  have po: "get_opponent
        [Some ''p1'', Some ''a2'', Some ''p3'', Some ''p4'', Some ''p5'',
         Some ''q1'', Some ''q2'', Some ''b3'', Some ''q4'', Some ''q5''] (Some ''player'') =
      Inr [Some ''q1'', Some ''q2'', Some ''b3'', Some ''q4'', Some ''q5'',
         Some ''p1'', Some ''a2'', Some ''p3'', Some ''p4'', Some ''p5'']"
    by (simp add: get_opponent_def entity_gap_def loop_body_def py_getitem_def reset_flag_def)
  note aft = after[rule_format, OF run]
  have r1: "map teamid (rows out) =
        [Some ''ta'', Some ''A'', Some ''ta'', Some ''ta'', Some ''ta'',
         Some ''B'', Some ''tb'', Some ''tb'', Some ''tb'', Some ''tb'']"
    by (rule trans[OF aft[THEN conjunct1] tv])
  have r2: "map playerid (rows out) =
        [Some ''p1'', Some ''a2'', Some ''p3'', Some ''p4'', Some ''p5'',
         Some ''q1'', Some ''q2'', Some ''b3'', Some ''q4'', Some ''q5'']"
    by (rule trans[OF aft[THEN conjunct2, THEN conjunct1] pv])
  have r3: "map opponentteamid (rows out) =
        [Some ''B'', Some ''tb'', Some ''tb'', Some ''tb'', Some ''tb'',
         Some ''ta'', Some ''A'', Some ''ta'', Some ''ta'', Some ''ta'']"
    by (rule Inr_inject[OF trans[OF sym[OF aft[THEN conjunct2, THEN conjunct2, THEN conjunct1, unfolded tv]] to]])
  have r4: "map opponentid (rows out) =
        [Some ''q1'', Some ''q2'', Some ''b3'', Some ''q4'', Some ''q5'',
         Some ''p1'', Some ''a2'', Some ''p3'', Some ''p4'', Some ''p5'']"
    by (rule Inr_inject[OF trans[OF sym[OF aft[THEN conjunct2, THEN conjunct2, THEN conjunct2, THEN conjunct1, unfolded pv]] po]])
  have n1: "None \<notin> set (map teamname (rows ex_players))"
    using names unfolding no_missing_iff by simp
  have n2: "None \<notin> set (map playername (rows ex_players))"
    using names unfolding no_missing_iff by simp
  from s1 run r1 r2 r3 r4 have ex: "\<exists>df1 out. fill_null_team_ids (Some ''player'') ex_players = Inr df1 \<and>
      enrich_opponent_metrics (Some ''player'') df1 = Inr out \<and>
      map teamid (rows out) =
        [Some ''ta'', Some ''A'', Some ''ta'', Some ''ta'', Some ''ta'',
         Some ''B'', Some ''tb'', Some ''tb'', Some ''tb'', Some ''tb''] \<and>
      map playerid (rows out) =
        [Some ''p1'', Some ''a2'', Some ''p3'', Some ''p4'', Some ''p5'',
         Some ''q1'', Some ''q2'', Some ''b3'', Some ''q4'', Some ''q5''] \<and>
      map opponentteamid (rows out) =
        [Some ''B'', Some ''tb'', Some ''tb'', Some ''tb'', Some ''tb'',
         Some ''ta'', Some ''A'', Some ''ta'', Some ''ta'', Some ''ta''] \<and>
      map opponentid (rows out) =
        [Some ''q1'', Some ''q2'', Some ''b3'', Some ''q4'', Some ''q5'',
         Some ''p1'', Some ''a2'', Some ''p3'', Some ''p4'', Some ''p5'']"
    by (intro exI[of _ df1] exI[of _ out] conjI)
  from cols n1 n2 more[THEN conjunct1] more[THEN conjunct2] ex show ?thesis
    by (intro conjI)
qed

end

